theory Spec2Isabelle
  imports
    Complex_Main
    "HOL-Library.AList"
    "HOL-Library.Char_ord"
    "HOL-Library.List_Lexorder"
    "HOL-Library.Product_Lexorder"
begin

section \<open>Numbers\<close>

text \<open>
  The package computes with numpy and pandas doubles. The embedding keeps the finite
  values as exact reals (rounding and overflow are not modelled) and keeps the three
  special values a division can produce: numpy does not raise on a zero divisor, it
  returns \<open>nan\<close> for \<open>0/0\<close> and an infinity for \<open>x/0\<close>. Zero is the positive zero.
\<close>

datatype fnum = Fin real | PInf | NInf | NaN

datatype error =
    ValueError
  | ZeroDivisionError
  | KeyError
  | AttributeError
  | IndexError

fun fl_neg :: "fnum \<Rightarrow> fnum" where
  "fl_neg (Fin a) = Fin (- a)"
| "fl_neg PInf = NInf"
| "fl_neg NInf = PInf"
| "fl_neg NaN = NaN"

fun fl_add :: "fnum \<Rightarrow> fnum \<Rightarrow> fnum" where
  "fl_add NaN _ = NaN"
| "fl_add _ NaN = NaN"
| "fl_add (Fin a) (Fin b) = Fin (a + b)"
| "fl_add PInf NInf = NaN"
| "fl_add NInf PInf = NaN"
| "fl_add PInf _ = PInf"
| "fl_add _ PInf = PInf"
| "fl_add NInf _ = NInf"
| "fl_add _ NInf = NInf"

definition fl_sub :: "fnum \<Rightarrow> fnum \<Rightarrow> fnum" where
  "fl_sub a b = fl_add a (fl_neg b)"

fun fl_mul :: "fnum \<Rightarrow> fnum \<Rightarrow> fnum" where
  "fl_mul NaN _ = NaN"
| "fl_mul _ NaN = NaN"
| "fl_mul (Fin a) (Fin b) = Fin (a * b)"
| "fl_mul (Fin a) PInf = (if a = 0 then NaN else if 0 < a then PInf else NInf)"
| "fl_mul (Fin a) NInf = (if a = 0 then NaN else if 0 < a then NInf else PInf)"
| "fl_mul PInf (Fin b) = (if b = 0 then NaN else if 0 < b then PInf else NInf)"
| "fl_mul NInf (Fin b) = (if b = 0 then NaN else if 0 < b then NInf else PInf)"
| "fl_mul PInf PInf = PInf"
| "fl_mul NInf NInf = PInf"
| "fl_mul PInf NInf = NInf"
| "fl_mul NInf PInf = NInf"

fun fl_div :: "fnum \<Rightarrow> fnum \<Rightarrow> fnum" where
  "fl_div NaN _ = NaN"
| "fl_div _ NaN = NaN"
| "fl_div (Fin a) (Fin b) =
     (if b = 0 then (if a = 0 then NaN else if 0 < a then PInf else NInf)
      else Fin (a / b))"
| "fl_div (Fin a) _ = Fin 0"
| "fl_div PInf (Fin b) = (if 0 \<le> b then PInf else NInf)"
| "fl_div NInf (Fin b) = (if 0 \<le> b then NInf else PInf)"
| "fl_div _ _ = NaN"

text \<open>The comparison \<open><\<close> of doubles: false as soon as one side is \<open>nan\<close>.\<close>

fun fl_lt :: "fnum \<Rightarrow> fnum \<Rightarrow> bool" where
  "fl_lt NaN _ = False"
| "fl_lt _ NaN = False"
| "fl_lt (Fin a) (Fin b) = (a < b)"
| "fl_lt NInf NInf = False"
| "fl_lt NInf _ = True"
| "fl_lt _ NInf = False"
| "fl_lt PInf _ = False"
| "fl_lt _ PInf = True"

text \<open>
  \<open>Series.min()\<close> and \<open>Series.max()\<close> of pandas skip \<open>nan\<close> entries and return
  \<open>nan\<close> when nothing is left.
\<close>

definition series_min :: "fnum list \<Rightarrow> fnum" where
  "series_min xs =
     (case filter (\<lambda>x. x \<noteq> NaN) xs of
        [] \<Rightarrow> NaN
      | y # ys \<Rightarrow> fold (\<lambda>b a. if fl_lt b a then b else a) ys y)"

definition series_max :: "fnum list \<Rightarrow> fnum" where
  "series_max xs =
     (case filter (\<lambda>x. x \<noteq> NaN) xs of
        [] \<Rightarrow> NaN
      | y # ys \<Rightarrow> fold (\<lambda>b a. if fl_lt a b then b else a) ys y)"

section \<open>Data\<close>

text \<open>
  One row of the long-format table with the columns Region, Category, Sub-category,
  Value and Cost/Benefit. The raw table holds the values as text, the normalised one
  as numbers.
\<close>

record 'v obs =
  region :: string
  category :: string
  sub_category :: string
  val :: 'v
  cost_benefit :: string

text \<open>A Python dict is an association list with distinct keys, in insertion order.\<close>

type_synonym 'v dict = "(string \<times> 'v) list"

type_synonym weight_tree = "(real dict) dict"

text \<open>The table \<open>topsis\<close> returns: its column names and one row per region.\<close>

record score_frame =
  frame_columns :: "string list"
  frame_rows :: "(string \<times> fnum) list"

text \<open>\<open>str.lower()\<close> on the letters that matter for the comparison with \<open>cost\<close>.\<close>

definition lower_char :: "char \<Rightarrow> char" where
  "lower_char c =
     (if CHR ''A'' \<le> c \<and> c \<le> CHR ''Z'' then char_of (of_char c + (32::nat)) else c)"

definition lower :: "string \<Rightarrow> string" where
  "lower s = map lower_char s"

section \<open>topsis.py\<close>

definition get_weight :: "weight_tree \<Rightarrow> real obs \<Rightarrow> real" where
  "get_weight weights row =
     (case map_of weights (category row) of
        None \<Rightarrow> 1
      | Some d \<Rightarrow> (case map_of d (sub_category row) of None \<Rightarrow> 1 | Some w \<Rightarrow> w))"

text \<open>
  \<open>df[criteria_type_col].str.lower()\<close>: the column must exist (KeyError) and hold
  text (AttributeError for the numeric columns Value, Weight and Weighted).
\<close>

definition str_column :: "string \<Rightarrow> error + (real obs \<Rightarrow> string)" where
  "str_column c =
     (if c = ''Region'' then Inr region
      else if c = ''Category'' then Inr category
      else if c = ''Sub-category'' then Inr sub_category
      else if c = ''Cost/Benefit'' then Inr cost_benefit
      else if c \<in> {''Value'', ''Weight'', ''Weighted''} then Inl AttributeError
      else Inl KeyError)"

text \<open>A row after the weighting: region, (category, sub-category), weighted value.\<close>

type_synonym wrow = "string \<times> (string \<times> string) \<times> real"

definition weighted_rows :: "real obs list \<Rightarrow> weight_tree \<Rightarrow> string option \<Rightarrow> error + wrow list" where
  "weighted_rows norm_data weights criteria_type_col =
     (let w = (\<lambda>row. val row * get_weight weights row)
      in case criteria_type_col of
           None \<Rightarrow> Inr (map (\<lambda>row. (region row, (category row, sub_category row), w row)) norm_data)
         | Some c \<Rightarrow>
             if c = [] then
               Inr (map (\<lambda>row. (region row, (category row, sub_category row), w row)) norm_data)
             else
               (case str_column c of
                  Inl e \<Rightarrow> Inl e
                | Inr col \<Rightarrow>
                    Inr (map (\<lambda>row. (region row, (category row, sub_category row),
                                if lower (col row) = ''cost'' then 1 - w row else w row))
                          norm_data)))"

text \<open>
  \<open>pivot_table(index='Region', columns=['Category','Sub-category'], aggfunc='sum',
  fill_value=0)\<close>: the sorted distinct regions, the sorted distinct criteria, and in
  each cell the sum of the rows that fall into it, 0 where there is none.
\<close>

definition pivot_index :: "wrow list \<Rightarrow> string list" where
  "pivot_index rows = sort (remdups (map fst rows))"

definition pivot_columns :: "wrow list \<Rightarrow> (string \<times> string) list" where
  "pivot_columns rows = sort (remdups (map (\<lambda>x. fst (snd x)) rows))"

definition cell :: "wrow list \<Rightarrow> string \<Rightarrow> string \<times> string \<Rightarrow> real" where
  "cell rows r c =
     (case filter (\<lambda>x. fst x = r \<and> fst (snd x) = c) rows of
        [] \<Rightarrow> 0
      | g \<Rightarrow> sum_list (map (\<lambda>x. snd (snd x)) g))"

definition ideal :: "wrow list \<Rightarrow> string \<times> string \<Rightarrow> real" where
  "ideal rows c = Max (set (map (\<lambda>r. cell rows r c) (pivot_index rows)))"

definition anti_ideal :: "wrow list \<Rightarrow> string \<times> string \<Rightarrow> real" where
  "anti_ideal rows c = Min (set (map (\<lambda>r. cell rows r c) (pivot_index rows)))"

definition dist_to_ideal :: "wrow list \<Rightarrow> string \<Rightarrow> real" where
  "dist_to_ideal rows r =
     sqrt (sum_list (map (\<lambda>c. (cell rows r c - ideal rows c)\<^sup>2) (pivot_columns rows)))"

definition dist_to_anti :: "wrow list \<Rightarrow> string \<Rightarrow> real" where
  "dist_to_anti rows r =
     sqrt (sum_list (map (\<lambda>c. (cell rows r c - anti_ideal rows c)\<^sup>2) (pivot_columns rows)))"

definition closeness :: "wrow list \<Rightarrow> fnum list" where
  "closeness rows =
     map (\<lambda>r. fl_div (Fin (dist_to_anti rows r))
                      (Fin (dist_to_ideal rows r + dist_to_anti rows r)))
         (pivot_index rows)"

definition epsilon :: real where
  "epsilon = 0.01"

definition rescale :: "fnum list \<Rightarrow> fnum list" where
  "rescale scores =
     (let lo = series_min scores; hi = series_max scores
      in map (\<lambda>s. fl_add (fl_mul (fl_div (fl_sub s lo) (fl_sub hi lo)) (Fin (1 - epsilon)))
                          (Fin epsilon))
             scores)"

definition topsis :: "real obs list \<Rightarrow> weight_tree \<Rightarrow> string option \<Rightarrow> error + score_frame" where
  "topsis norm_data weights criteria_type_col =
     (case weighted_rows norm_data weights criteria_type_col of
        Inl e \<Rightarrow> Inl e
      | Inr rows \<Rightarrow>
          Inr \<lparr>frame_columns = [''Region'', ''TOPSIS Score''],
               frame_rows = zip (pivot_index rows) (rescale (closeness rows))\<rparr>)"

section \<open>normalisation.py\<close>

text \<open>
  The cleaning of the Value column: the text of each value with the non-breaking
  spaces and the spaces removed and each comma turned into a dot. Characters are code
  points below 256, so U+00A0 is one character.
\<close>

definition clean_value :: "string \<Rightarrow> string" where
  "clean_value s =
     map (\<lambda>c. if c = CHR '','' then CHR ''.'' else c)
       (filter (\<lambda>c. c \<noteq> CHR '' '') (filter (\<lambda>c. c \<noteq> CHR 0xA0) s))"

text \<open>
  \<open>pd.to_numeric(errors="raise")\<close> is pandas' parser; it is a parameter here, \<open>None\<close>
  where it raises. The first value it rejects aborts the call with a ValueError.
\<close>

fun parse_values :: "(string \<Rightarrow> real option) \<Rightarrow> string obs list \<Rightarrow> error + real obs list" where
  "parse_values to_numeric [] = Inr []"
| "parse_values to_numeric (r # rs) =
     (case to_numeric (clean_value (val r)) of
        None \<Rightarrow> Inl ValueError
      | Some v \<Rightarrow>
          (case parse_values to_numeric rs of
             Inl e \<Rightarrow> Inl e
           | Inr rs' \<Rightarrow>
               Inr (\<lparr>region = region r, category = category r,
                     sub_category = sub_category r, val = v,
                     cost_benefit = cost_benefit r\<rparr> # rs')))"

text \<open>\<open>Series.unique()\<close>: the distinct values in the order of their first occurrence.\<close>

definition unique :: "'a list \<Rightarrow> 'a list" where
  "unique xs = rev (remdups (rev xs))"

fun fold_err :: "('a \<Rightarrow> 's \<Rightarrow> error + 's) \<Rightarrow> 'a list \<Rightarrow> 's \<Rightarrow> error + 's" where
  "fold_err f [] s = Inr s"
| "fold_err f (x # xs) s = (case f x s of Inl e \<Rightarrow> Inl e | Inr s' \<Rightarrow> fold_err f xs s')"

text \<open>
  The body of the two loops for one (category, sub-category) pair: it rewrites the
  values of the rows under the mask. \<open>iloc[0]\<close> raises on an empty selection.
\<close>

definition norm_group :: "string \<Rightarrow> string \<Rightarrow> real obs list \<Rightarrow> error + real obs list" where
  "norm_group cat sub norm_data =
     (let mask = (\<lambda>r. category r = cat \<and> sub_category r = sub)
      in case filter mask norm_data of
           [] \<Rightarrow> Inl IndexError
         | g # gs \<Rightarrow>
             (let vmax = Max (set (map val (g # gs)));
                  vmin = Min (set (map val (g # gs)));
                  ctype = cost_benefit g
              in if vmax = vmin then
                   Inr (map (\<lambda>r. if mask r then r\<lparr>val := 1\<rparr> else r) norm_data)
                 else if lower ctype = ''cost'' then
                   Inr (map (\<lambda>r. if mask r then r\<lparr>val := (vmax - val r) / (vmax - vmin)\<rparr> else r)
                          norm_data)
                 else
                   Inr (map (\<lambda>r. if mask r then r\<lparr>val := (val r - vmin) / (vmax - vmin)\<rparr> else r)
                          norm_data)))"

definition min_max_normalize ::
  "(string \<Rightarrow> real option) \<Rightarrow> string obs list \<Rightarrow> error + real obs list" where
  "min_max_normalize to_numeric data =
     (case parse_values to_numeric data of
        Inl e \<Rightarrow> Inl e
      | Inr norm_data \<Rightarrow>
          fold_err
            (\<lambda>cat nd.
               fold_err (\<lambda>sub nd'. norm_group cat sub nd')
                 (unique (map sub_category (filter (\<lambda>r. category r = cat) nd))) nd)
            (unique (map category norm_data)) norm_data)"

section \<open>ahp.py\<close>

text \<open>
  \<open>pd.DataFrame(matrix)\<close>: the row labels, the column labels and the rows of numbers.
  A frame built from a dict has as many row labels as rows, rows as long as the
  column labels, and distinct column labels.
\<close>

record matrix_frame =
  index_labels :: "string list"
  column_labels :: "string list"
  cells :: "real list list"

definition wf_frame :: "matrix_frame \<Rightarrow> bool" where
  "wf_frame df \<longleftrightarrow>
     length (index_labels df) = length (cells df) \<and>
     list_all (\<lambda>row. length row = length (column_labels df)) (cells df) \<and>
     distinct (column_labels df)"

text \<open>
  \<open>np.allclose(arr, 1 / arr.T, atol=1e-2)\<close> with the default \<open>rtol=1e-5\<close>: each entry
  is compared with the reciprocal of the transposed one; an infinite reciprocal is
  close to no finite entry.
\<close>

definition isclose :: "real \<Rightarrow> fnum \<Rightarrow> bool" where
  "isclose a b = (case b of Fin y \<Rightarrow> \<bar>a - y\<bar> \<le> 0.01 + 0.00001 * \<bar>y\<bar> | _ \<Rightarrow> False)"

definition allclose_reciprocal :: "real list list \<Rightarrow> bool" where
  "allclose_reciprocal arr =
     list_all2 (list_all2 (\<lambda>a t. isclose a (fl_div (Fin 1) (Fin t)))) arr (transpose arr)"

text \<open>
  \<open>x ** (1 / n)\<close> on a double: the exponent is 1.0 for \<open>n = 1\<close>; for a larger \<open>n\<close>
  it is not an integer and a negative base gives \<open>nan\<close>.
\<close>

definition np_root :: "real \<Rightarrow> nat \<Rightarrow> fnum" where
  "np_root x n = (if n = 1 then Fin x else if x < 0 then NaN else Fin (root n x))"

definition np_sum :: "fnum list \<Rightarrow> fnum" where
  "np_sum xs = fold (\<lambda>x acc. fl_add acc x) xs (Fin 0)"

text \<open>
  One pass of the loop body of \<open>ahp_weights\<close>. The result carries whether the warning
  about reciprocity was printed.
\<close>

definition ahp_sheet :: "matrix_frame \<Rightarrow> error + (bool \<times> fnum dict)" where
  "ahp_sheet df =
     (if length (cells df) \<noteq> length (column_labels df) then Inl ValueError
      else
        (let idx = (if index_labels df = column_labels df then index_labels df
                    else column_labels df);
             arr = cells df;
             warned = (\<not> allclose_reciprocal arr);
             n = length arr
         in if n = 0 then Inl ZeroDivisionError
            else
              (let geom_means = map (\<lambda>row. np_root (prod_list row) n) arr;
                   norm_weights = map (\<lambda>g. fl_div g (np_sum geom_means)) geom_means
               in Inr (warned, zip idx norm_weights))))"

text \<open>
  \<open>ahp_weights\<close>: the sheets in the order of the dict; the first sheet that raises
  ends the call. The result is the list of the sheets that were warned about and the
  weights of every sheet.
\<close>

fun ahp_loop ::
  "matrix_frame dict \<Rightarrow> string list \<times> (fnum dict) dict \<Rightarrow> error + (string list \<times> (fnum dict) dict)" where
  "ahp_loop [] acc = Inr acc"
| "ahp_loop ((sheet_name, df) # rest) (warnings, final_weights) =
     (case ahp_sheet df of
        Inl e \<Rightarrow> Inl e
      | Inr (warned, w) \<Rightarrow>
          ahp_loop rest
            (if warned then warnings @ [sheet_name] else warnings,
             AList.update sheet_name w final_weights))"

definition ahp_weights :: "matrix_frame dict \<Rightarrow> error + (string list \<times> (fnum dict) dict)" where
  "ahp_weights weights_dict = ahp_loop weights_dict ([], [])"

section \<open>sensitivity.py\<close>

text \<open>
  The weights are Python floats, as in the docstring's example; dividing one by a
  zero total raises ZeroDivisionError. The copy of the tree gets the new weight of
  the leaf, then every weight of that category is divided by their sum.
\<close>

definition perturb ::
  "weight_tree \<Rightarrow> string \<Rightarrow> real dict \<Rightarrow> string \<Rightarrow> real \<Rightarrow> error + weight_tree" where
  "perturb weights cat sub_dict sub_cat new_weight =
     (let d = AList.update sub_cat new_weight sub_dict;
          total = sum_list (map snd d)
      in if total = 0 then Inl ZeroDivisionError
         else Inr (AList.update cat (map (\<lambda>(k, v). (k, v / total)) d) weights))"

definition sens_leaf ::
  "real obs list \<Rightarrow> weight_tree \<Rightarrow> real \<Rightarrow> string \<Rightarrow> real dict \<Rightarrow> string \<Rightarrow> real \<Rightarrow>
   score_frame dict \<Rightarrow> error + score_frame dict" where
  "sens_leaf norm_data weights delta cat sub_dict sub_cat orig_weight results =
     (case perturb weights cat sub_dict sub_cat (orig_weight * (1 + delta)) of
        Inl e \<Rightarrow> Inl e
      | Inr weights_plus \<Rightarrow>
     (case topsis norm_data weights_plus None of
        Inl e \<Rightarrow> Inl e
      | Inr scores_plus \<Rightarrow>
     (case perturb weights cat sub_dict sub_cat (orig_weight * (1 - delta)) of
        Inl e \<Rightarrow> Inl e
      | Inr weights_minus \<Rightarrow>
     (case topsis norm_data weights_minus None of
        Inl e \<Rightarrow> Inl e
      | Inr scores_minus \<Rightarrow>
          Inr (AList.update (cat @ ''_'' @ sub_cat @ ''_minus'') scores_minus
                (AList.update (cat @ ''_'' @ sub_cat @ ''_plus'') scores_plus
                   results))))))"

definition sensitivity_analysis ::
  "real obs list \<Rightarrow> weight_tree \<Rightarrow> real \<Rightarrow> error + (score_frame \<times> score_frame dict)" where
  "sensitivity_analysis norm_data weights delta =
     (case topsis norm_data weights None of
        Inl e \<Rightarrow> Inl e
      | Inr base_scores \<Rightarrow>
          (case fold_err
                  (\<lambda>(cat, sub_dict) results.
                     fold_err
                       (\<lambda>(sub_cat, orig_weight) results'.
                          sens_leaf norm_data weights delta cat sub_dict
                            sub_cat orig_weight results')
                       sub_dict results)
                  weights []
           of Inl e \<Rightarrow> Inl e
            | Inr results \<Rightarrow> Inr (base_scores, results)))"

section \<open>The rank column of visualisation\_static.py\<close>

text \<open>
  \<open>Score.rank(ascending=False, method="min")\<close> over the rows with a score: one more
  than the number of strictly greater scores; rows without a score keep no rank.
\<close>

definition rank_min :: "fnum list \<Rightarrow> nat option list" where
  "rank_min scores =
     (let valid = filter (\<lambda>s. s \<noteq> NaN) scores
      in map (\<lambda>s. if s = NaN then None
                   else Some (1 + length (filter (\<lambda>t. fl_lt s t) valid)))
             scores)"


section \<open>Notions used in the proofs\<close>






section \<open>Facts about the scoring table\<close>

lemmas topsis_defs = topsis_def weighted_rows_def get_weight_def pivot_index_def pivot_columns_def
     closeness_def rescale_def dist_to_anti_def dist_to_ideal_def ideal_def anti_ideal_def cell_def
     series_min_def series_max_def fl_sub_def epsilon_def

lemma weighted_rows_None:
  "weighted_rows d w None =
     Inr (map (\<lambda>row. (region row, (category row, sub_category row), val row * get_weight w row)) d)"
  by (simp add: weighted_rows_def)

lemma length_rescale: "length (rescale xs) = length xs"
  by (simp add: rescale_def Let_def)

lemma length_closeness: "length (closeness rows) = length (pivot_index rows)"
  by (simp add: closeness_def)

lemma topsis_None:
  assumes "weighted_rows d w None = Inr rows"
  shows "topsis d w None =
           Inr \<lparr>frame_columns = [''Region'', ''TOPSIS Score''],
                frame_rows = zip (pivot_index rows) (rescale (closeness rows))\<rparr>"
  using assms by (simp add: topsis_def)

lemma pivot_index_None:
  assumes "weighted_rows d w None = Inr rows"
  shows "pivot_index rows = sort (remdups (map region d))"
proof -
  have "map fst rows = map region d"
    using assms by (auto simp: weighted_rows_None)
  then show ?thesis by (simp add: pivot_index_def)
qed


lemma rank_min_nth:
  assumes "i < length xs" and "xs ! i \<noteq> NaN"
  shows "rank_min xs ! i = Some (1 + card {j. j < length xs \<and> fl_lt (xs ! i) (xs ! j)})"
proof -
  have "filter (fl_lt (xs ! i)) (filter (\<lambda>s. s \<noteq> NaN) xs) = filter (fl_lt (xs ! i)) xs"
  proof -
    have "(t \<noteq> NaN \<and> fl_lt (xs ! i) t) = fl_lt (xs ! i) t" for t
      by (cases t; cases "xs ! i") simp_all
    then show ?thesis by simp
  qed
  then show ?thesis
    using assms by (simp add: rank_min_def Let_def length_filter_conv_card)
qed

text \<open>
  C5, as amended. For a non-empty table \<open>topsis\<close> returns a frame with exactly the
  columns Region and TOPSIS Score and one row per distinct region, in ascending order
  of the region label: it computes no rank and does not order the rows by score. The
  rank that the plotting step later derives from the score column is the minimum
  rank: one more than the number of rows with a strictly greater score, so tied
  scores share a rank and the next rank skips the size of the tie.
\<close>

theorem topsis_table_shape:
  assumes "norm_data \<noteq> []"
  shows "\<exists>f. topsis norm_data weights None = Inr f \<and>
           frame_columns f = [''Region'', ''TOPSIS Score''] \<and>
           map fst (frame_rows f) = sort (remdups (map region norm_data)) \<and>
           (\<forall>i < length (frame_rows f). snd (frame_rows f ! i) \<noteq> NaN \<longrightarrow>
              rank_min (map snd (frame_rows f)) ! i =
                Some (1 + card {j. j < length (frame_rows f) \<and>
                                   fl_lt (snd (frame_rows f ! i)) (snd (frame_rows f ! j))}))"
proof -
  obtain rows where rows: "weighted_rows norm_data weights None = Inr rows"
    by (simp add: weighted_rows_None)
  let ?rs = "zip (pivot_index rows) (rescale (closeness rows))"
  have len: "length (rescale (closeness rows)) = length (pivot_index rows)"
    by (simp add: length_rescale length_closeness)
  have fst: "map fst ?rs = sort (remdups (map region norm_data))"
    using len pivot_index_None[OF rows] by simp
  have rk: "rank_min (map snd ?rs) ! i =
              Some (1 + card {j. j < length ?rs \<and> fl_lt (snd (?rs ! i)) (snd (?rs ! j))})"
    if "i < length ?rs" "snd (?rs ! i) \<noteq> NaN" for i
  proof -
    have "rank_min (map snd ?rs) ! i =
            Some (1 + card {j. j < length (map snd ?rs) \<and>
                               fl_lt (map snd ?rs ! i) (map snd ?rs ! j)})"
      using that by (intro rank_min_nth) simp_all
    moreover have "{j. j < length (map snd ?rs) \<and> fl_lt (map snd ?rs ! i) (map snd ?rs ! j)}
                 = {j. j < length ?rs \<and> fl_lt (snd (?rs ! i)) (snd (?rs ! j))}"
      using that by auto
    ultimately show ?thesis by simp
  qed
  show ?thesis
  proof (intro exI conjI allI impI)
    show "topsis norm_data weights None =
            Inr \<lparr>frame_columns = [''Region'', ''TOPSIS Score''], frame_rows = ?rs\<rparr>"
      by (rule topsis_None[OF rows])
  qed (use fst rk in simp_all)
qed


section \<open>The claims on concrete inputs\<close>

text \<open>
  C1. Two regions with the closeness 1/2 each: the rescaling divides 0 by 0 and both
  final scores are \<open>nan\<close>, not 1.0. There is no guard for equal scores in
  \<open>topsis\<close>, while \<open>min_max_normalize\<close> has one for equal values.
\<close>

theorem topsis_equal_closeness_nan:
  "topsis
     [\<lparr>region = ''R1'', category = ''C'', sub_category = ''a'', val = 1, cost_benefit = ''Benefit''\<rparr>,
      \<lparr>region = ''R1'', category = ''C'', sub_category = ''b'', val = 0, cost_benefit = ''Benefit''\<rparr>,
      \<lparr>region = ''R2'', category = ''C'', sub_category = ''a'', val = 0, cost_benefit = ''Benefit''\<rparr>,
      \<lparr>region = ''R2'', category = ''C'', sub_category = ''b'', val = 1, cost_benefit = ''Benefit''\<rparr>]
     [] None
   = Inr \<lparr>frame_columns = [''Region'', ''TOPSIS Score''],
          frame_rows = [(''R1'', NaN), (''R2'', NaN)]\<rparr>"
  by (simp add: topsis_defs)

text \<open>
  Against C5 as stated: the returned frame has the columns Region and TOPSIS Score
  only, and its rows follow the region label, here with the lower score first.
\<close>

theorem topsis_rows_not_by_score:
  "topsis
     [\<lparr>region = ''Region1'', category = ''C'', sub_category = ''a'', val = 0, cost_benefit = ''Benefit''\<rparr>,
      \<lparr>region = ''Region2'', category = ''C'', sub_category = ''a'', val = 1, cost_benefit = ''Benefit''\<rparr>]
     [] None
   = Inr \<lparr>frame_columns = [''Region'', ''TOPSIS Score''],
          frame_rows = [(''Region1'', Fin 0.01), (''Region2'', Fin 1)]\<rparr>
   \<and> fl_lt (Fin 0.01) (Fin 1)"
  by (simp add: topsis_defs)

theorem topsis_table_shape_witness:
  "[\<lparr>region = ''Region2'', category = ''C'', sub_category = ''a'', val = 1::real, cost_benefit = ''Benefit''\<rparr>,
    \<lparr>region = ''Region1'', category = ''C'', sub_category = ''a'', val = 0, cost_benefit = ''Benefit''\<rparr>] \<noteq> []
   \<and> (\<exists>f. topsis
         [\<lparr>region = ''Region2'', category = ''C'', sub_category = ''a'', val = 1, cost_benefit = ''Benefit''\<rparr>,
          \<lparr>region = ''Region1'', category = ''C'', sub_category = ''a'', val = 0, cost_benefit = ''Benefit''\<rparr>]
         [] None = Inr f
        \<and> frame_columns f = [''Region'', ''TOPSIS Score'']
        \<and> map fst (frame_rows f) = [''Region1'', ''Region2''])"
proof -
  let ?d = "[\<lparr>region = ''Region2'', category = ''C'', sub_category = ''a'', val = 1::real, cost_benefit = ''Benefit''\<rparr>,
    \<lparr>region = ''Region1'', category = ''C'', sub_category = ''a'', val = 0, cost_benefit = ''Benefit''\<rparr>]"
  have ne: "?d \<noteq> []" by simp
  have srt: "sort (remdups (map region ?d)) = [''Region1'', ''Region2'']" by simp
  from topsis_table_shape[OF ne, of "[]"] obtain f where
    "topsis ?d [] None = Inr f" "frame_columns f = [''Region'', ''TOPSIS Score'']"
    "map fst (frame_rows f) = sort (remdups (map region ?d))"
    by blast
  with srt ne show ?thesis by auto
qed

text \<open>
  Against C6 as stated: on the literal scenario the returned frame holds the two scores
  and no rank column.
\<close>

theorem literal_scenario_no_rank:
  "topsis
     [\<lparr>region = ''Region1'', category = ''Access'', sub_category = ''Distance'', val = 1, cost_benefit = ''Cost''\<rparr>,
      \<lparr>region = ''Region2'', category = ''Access'', sub_category = ''Distance'', val = 0, cost_benefit = ''Cost''\<rparr>]
     [(''Access'', [(''Distance'', 1)])] None
   = Inr \<lparr>frame_columns = [''Region'', ''TOPSIS Score''],
          frame_rows = [(''Region1'', Fin 1), (''Region2'', Fin 0.01)]\<rparr>
   \<and> ''Rank'' \<notin> set [''Region'', ''TOPSIS Score'']"
  by (simp add: topsis_defs)

text \<open>
  C6, as amended. Two regions and the cost criterion Distance with the raw values 10
  and 20: the normaliser yields 1 and 0; with the weight 1 on the criterion \<open>topsis\<close>
  yields the scores 1 and 0.01 and no rank; the minimum rank of these two scores, as the
  plotting step computes it, is 1 and 2.
\<close>

theorem literal_scenario:
  assumes "to_numeric ''10'' = Some 10" and "to_numeric ''20'' = Some 20"
  shows "min_max_normalize to_numeric
     [\<lparr>region = ''Region1'', category = cat, sub_category = ''Distance'', val = ''10'', cost_benefit = ''Cost''\<rparr>,
      \<lparr>region = ''Region2'', category = cat, sub_category = ''Distance'', val = ''20'', cost_benefit = ''Cost''\<rparr>]
   = Inr [\<lparr>region = ''Region1'', category = cat, sub_category = ''Distance'', val = 1, cost_benefit = ''Cost''\<rparr>,
      \<lparr>region = ''Region2'', category = cat, sub_category = ''Distance'', val = 0, cost_benefit = ''Cost''\<rparr>]
   \<and> topsis
      [\<lparr>region = ''Region1'', category = cat, sub_category = ''Distance'', val = 1, cost_benefit = ''Cost''\<rparr>,
       \<lparr>region = ''Region2'', category = cat, sub_category = ''Distance'', val = 0, cost_benefit = ''Cost''\<rparr>]
      [(cat, [(''Distance'', 1)])] None
   = Inr \<lparr>frame_columns = [''Region'', ''TOPSIS Score''],
          frame_rows = [(''Region1'', Fin 1), (''Region2'', Fin 0.01)]\<rparr>
   \<and> rank_min (map snd [(''Region1'', Fin 1), (''Region2'', Fin 0.01)]) = [Some 1, Some 2]"
proof -
  have l: "lower ''Cost'' = ''cost''" by code_simp
  have n: "min_max_normalize to_numeric
     [\<lparr>region = ''Region1'', category = cat, sub_category = ''Distance'', val = ''10'', cost_benefit = ''Cost''\<rparr>,
      \<lparr>region = ''Region2'', category = cat, sub_category = ''Distance'', val = ''20'', cost_benefit = ''Cost''\<rparr>]
   = Inr [\<lparr>region = ''Region1'', category = cat, sub_category = ''Distance'', val = 1, cost_benefit = ''Cost''\<rparr>,
      \<lparr>region = ''Region2'', category = cat, sub_category = ''Distance'', val = 0, cost_benefit = ''Cost''\<rparr>]"
    using assms
    by (simp add: min_max_normalize_def clean_value_def unique_def norm_group_def l)
  have t: "topsis
      [\<lparr>region = ''Region1'', category = cat, sub_category = ''Distance'', val = 1, cost_benefit = ''Cost''\<rparr>,
       \<lparr>region = ''Region2'', category = cat, sub_category = ''Distance'', val = 0, cost_benefit = ''Cost''\<rparr>]
      [(cat, [(''Distance'', 1)])] None
   = Inr \<lparr>frame_columns = [''Region'', ''TOPSIS Score''],
          frame_rows = [(''Region1'', Fin 1), (''Region2'', Fin 0.01)]\<rparr>"
    by (simp add: topsis_defs)
  have r: "rank_min (map snd [(''Region1'', Fin 1), (''Region2'', Fin 0.01)]) = [Some 1, Some 2]"
    by (simp add: rank_min_def)
  from n t r show ?thesis by blast
qed

theorem literal_scenario_witness:
  "(\<lambda>s. if s = ''10'' then Some (10::real) else if s = ''20'' then Some 20 else None) ''10'' = Some 10
   \<and> (\<lambda>s. if s = ''10'' then Some (10::real) else if s = ''20'' then Some 20 else None) ''20'' = Some 20
   \<and> min_max_normalize (\<lambda>s. if s = ''10'' then Some 10 else if s = ''20'' then Some 20 else None)
     [\<lparr>region = ''Region1'', category = ''Access'', sub_category = ''Distance'', val = ''10'', cost_benefit = ''Cost''\<rparr>,
      \<lparr>region = ''Region2'', category = ''Access'', sub_category = ''Distance'', val = ''20'', cost_benefit = ''Cost''\<rparr>]
   = Inr [\<lparr>region = ''Region1'', category = ''Access'', sub_category = ''Distance'', val = 1, cost_benefit = ''Cost''\<rparr>,
      \<lparr>region = ''Region2'', category = ''Access'', sub_category = ''Distance'', val = 0, cost_benefit = ''Cost''\<rparr>]
   \<and> topsis
      [\<lparr>region = ''Region1'', category = ''Access'', sub_category = ''Distance'', val = 1, cost_benefit = ''Cost''\<rparr>,
       \<lparr>region = ''Region2'', category = ''Access'', sub_category = ''Distance'', val = 0, cost_benefit = ''Cost''\<rparr>]
      [(''Access'', [(''Distance'', 1)])] None
   = Inr \<lparr>frame_columns = [''Region'', ''TOPSIS Score''],
          frame_rows = [(''Region1'', Fin 1), (''Region2'', Fin 0.01)]\<rparr>"
proof -
  let ?p = "\<lambda>s. if s = ''10'' then Some (10::real) else if s = ''20'' then Some 20 else None"
  have a: "?p ''10'' = Some 10" by simp
  have b: "?p ''20'' = Some 20" by simp
  from literal_scenario[of ?p, OF a b, of "''Access''"] a b show ?thesis by blast
qed


section \<open>Facts about the weight derivation\<close>



lemma ahp_sheet_square:
  assumes "length (cells df) = length (column_labels df)" and "cells df \<noteq> []"
  shows "\<exists>warned w. ahp_sheet df = Inr (warned, w) \<and> map fst w = column_labels df \<and>
           map snd w =
             map (\<lambda>g. fl_div g (np_sum (map (\<lambda>row. np_root (prod_list row) (length (cells df))) (cells df))))
               (map (\<lambda>row. np_root (prod_list row) (length (cells df))) (cells df))"
  using assms by (auto simp: ahp_sheet_def Let_def)

lemma ahp_loop_keeps:
  assumes "ahp_loop d (ws, fw) = Inr (ws', fw')" and "k \<notin> fst ` set d"
  shows "map_of fw' k = map_of fw k"
  using assms
proof (induction d arbitrary: ws fw)
  case Nil
  then show ?case by simp
next
  case (Cons p d)
  obtain n df where p: "p = (n, df)" by (cases p)
  from Cons.prems obtain b w where s: "ahp_sheet df = Inr (b, w)"
    by (auto simp: p split: sum.splits)
  from Cons.prems have
    "ahp_loop d (if b then ws @ [n] else ws, AList.update n w fw) = Inr (ws', fw')"
    by (simp add: p s)
  from Cons.IH[OF this] Cons.prems(2) have "map_of fw' k = map_of (AList.update n w fw) k"
    by (simp add: p)
  also have "\<dots> = map_of fw k"
    using Cons.prems(2) by (simp add: p update_conv')
  finally show ?case .
qed

lemma ahp_loop_result:
  assumes "ahp_loop d (ws, fw) = Inr (ws', fw')" and "distinct (map fst d)"
    and "(n, df) \<in> set d"
  shows "\<exists>b w. ahp_sheet df = Inr (b, w) \<and> map_of fw' n = Some w"
  using assms
proof (induction d arbitrary: ws fw)
  case Nil
  then show ?case by simp
next
  case (Cons p d)
  obtain n0 df0 where p: "p = (n0, df0)" by (cases p)
  from Cons.prems(1) obtain b0 w0 where s: "ahp_sheet df0 = Inr (b0, w0)"
    by (auto simp: p split: sum.splits)
  from Cons.prems(1) have rest:
    "ahp_loop d (if b0 then ws @ [n0] else ws, AList.update n0 w0 fw) = Inr (ws', fw')"
    by (simp add: p s)
  show ?case
  proof (cases "(n, df) = (n0, df0)")
    case True
    from Cons.prems(2) have "n0 \<notin> fst ` set d" by (simp add: p)
    from ahp_loop_keeps[OF rest this] have "map_of fw' n0 = Some w0"
      by (simp add: update_conv')
    with True s show ?thesis by auto
  next
    case False
    with Cons.prems(3) have "(n, df) \<in> set d" by (auto simp: p)
    moreover from Cons.prems(2) have "distinct (map fst d)" by simp
    ultimately show ?thesis using Cons.IH[OF rest] by blast
  qed
qed

lemma ahp_loop_succeeds:
  assumes "\<forall>(n, df) \<in> set d. \<exists>b w. ahp_sheet df = Inr (b, w)"
  shows "\<exists>r. ahp_loop d acc = Inr r"
  using assms
proof (induction d arbitrary: acc)
  case Nil
  then show ?case by simp
next
  case (Cons p d)
  obtain n df where p: "p = (n, df)" by (cases p)
  obtain ws fw where acc: "acc = (ws, fw)" by (cases acc)
  from Cons.prems obtain b w where s: "ahp_sheet df = Inr (b, w)" by (auto simp: p)
  from Cons.prems have "\<forall>(n, df) \<in> set d. \<exists>b w. ahp_sheet df = Inr (b, w)" by simp
  from Cons.IH[OF this] show ?case by (simp add: p acc s)
qed

text \<open>
  C3, as amended. \<open>ahp_weights\<close> never looks at the sign of an entry and raises no
  error for an entry that is zero or negative: whenever every matrix of the dict is
  square and non-empty, whatever its entries, the call returns, for every matrix, one
  weight per column label. The only checks are the one for a square shape and the
  division by the size.
\<close>

theorem ahp_returns_weights_without_domain_check:
  assumes "distinct (map fst weights_dict)"
    and "\<forall>(name, df) \<in> set weights_dict.
           length (cells df) = length (column_labels df) \<and> cells df \<noteq> []"
  shows "\<exists>warnings final_weights.
           ahp_weights weights_dict = Inr (warnings, final_weights) \<and>
           (\<forall>(name, df) \<in> set weights_dict.
              \<exists>w. map_of final_weights name = Some w \<and> map fst w = column_labels df)"
proof -
  have ok: "\<forall>(n, df) \<in> set weights_dict. \<exists>b w. ahp_sheet df = Inr (b, w)"
    using assms(2) ahp_sheet_square by fastforce
  from ahp_loop_succeeds[OF ok] obtain ws fw where
    r: "ahp_loop weights_dict ([], []) = Inr (ws, fw)" by fastforce
  have "\<exists>w. map_of fw n = Some w \<and> map fst w = column_labels df"
    if "(n, df) \<in> set weights_dict" for n df
  proof -
    from ahp_loop_result[OF r assms(1) that] obtain b w where
      s: "ahp_sheet df = Inr (b, w)" and m: "map_of fw n = Some w" by blast
    from assms(2) that have "length (cells df) = length (column_labels df)" "cells df \<noteq> []"
      by auto
    from ahp_sheet_square[OF this] s have "map fst w = column_labels df" by auto
    with m show ?thesis by blast
  qed
  with r show ?thesis by (auto simp: ahp_weights_def)
qed

text \<open>
  Against C3 as stated: a matrix with the entry 0 is answered with the weights 0 and 1
  (and the printed warning about reciprocity), not with an error.
\<close>

theorem ahp_accepts_zero_entry:
  "ahp_weights [(''General'',
      \<lparr>index_labels = [''a'', ''b''], column_labels = [''a'', ''b''], cells = [[1, 0], [4, 1]]\<rparr>)]
    = Inr ([''General''], [(''General'', [(''a'', Fin 0), (''b'', Fin 1)])])"
proof -
  have t: "transpose [[1, 0], [4, 1::real]] = [[1, 4], [0, 1]]" by code_simp
  have r: "root 2 4 = 2" using real_sqrt_four by (simp add: sqrt_def)
  show ?thesis
    by (simp add: ahp_weights_def ahp_sheet_def allclose_reciprocal_def isclose_def
        np_root_def np_sum_def t r)
qed

theorem ahp_returns_weights_without_domain_check_witness:
  "distinct (map fst [(''General'',
      \<lparr>index_labels = [''a'', ''b''], column_labels = [''a'', ''b''], cells = [[1, 0], [4, 1::real]]\<rparr>)])
   \<and> length (cells \<lparr>index_labels = [''a'', ''b''], column_labels = [''a'', ''b''], cells = [[1, 0], [4, 1::real]]\<rparr>) = 2
   \<and> (\<exists>warnings final_weights.
         ahp_weights [(''General'',
           \<lparr>index_labels = [''a'', ''b''], column_labels = [''a'', ''b''], cells = [[1, 0], [4, 1]]\<rparr>)]
           = Inr (warnings, final_weights) \<and>
         (\<exists>w. map_of final_weights ''General'' = Some w \<and> map fst w = [''a'', ''b'']))"
proof -
  let ?df = "\<lparr>index_labels = [''a'', ''b''], column_labels = [''a'', ''b''], cells = [[1, 0], [4, 1::real]]\<rparr>"
  let ?d = "[(''General'', ?df)]"
  have a: "distinct (map fst ?d)" by simp
  have b: "\<forall>(name, df) \<in> set ?d. length (cells df) = length (column_labels df) \<and> cells df \<noteq> []"
    by simp
  from ahp_returns_weights_without_domain_check[OF a b] obtain ws fw where
    "ahp_weights ?d = Inr (ws, fw)"
    "\<forall>(name, df) \<in> set ?d. \<exists>w. map_of fw name = Some w \<and> map fst w = column_labels df"
    by blast
  then show ?thesis by auto
qed


lemma np_root_pos:
  assumes "0 < x" and "0 < n"
  shows "\<exists>g. np_root x n = Fin g \<and> 0 < g"
  using assms by (auto simp: np_root_def real_root_gt_zero)


lemma sum_list_divide:
  fixes xs :: "real list"
  shows "sum_list (map (\<lambda>g. g / s) xs) = sum_list xs / s"
  by (induction xs) (simp_all add: add_divide_distrib)




section \<open>Facts about the sensitivity analysis\<close>

lemma topsis_None_returns: "\<exists>f. topsis d w None = Inr f"
  by (simp add: topsis_def weighted_rows_None)

lemma perturb_returns:
  assumes "sum_list (map snd (AList.update sub_cat new_weight sub_dict)) \<noteq> 0"
  shows "\<exists>wp. perturb weights cat sub_dict sub_cat new_weight = Inr wp"
  using assms by (simp add: perturb_def Let_def)

lemma perturb_renormalised:
  assumes "perturb weights cat sub_dict sub_cat new_weight = Inr wp"
  shows "\<exists>d. map_of wp cat = Some d \<and> map fst d = map fst (AList.update sub_cat new_weight sub_dict)
           \<and> sum_list (map snd d) = 1"
proof -
  let ?d = "AList.update sub_cat new_weight sub_dict"
  let ?t = "sum_list (map snd ?d)"
  from assms have t: "?t \<noteq> 0" and
    wp: "wp = AList.update cat (map (\<lambda>(k, v). (k, v / ?t)) ?d) weights"
    by (auto simp: perturb_def Let_def split: if_splits)
  have "map snd (map (\<lambda>(k, v). (k, v / ?t)) ?d) = map (\<lambda>g. g / ?t) (map snd ?d)"
    by (simp add: case_prod_unfold)
  then have "sum_list (map snd (map (\<lambda>(k, v). (k, v / ?t)) ?d)) = 1"
    using t by (simp only: sum_list_divide) simp
  moreover have "map fst (map (\<lambda>(k, v). (k, v / ?t)) ?d) = map fst ?d"
    by (simp add: case_prod_unfold)
  moreover have "map_of wp cat = Some (map (\<lambda>(k, v). (k, v / ?t)) ?d)"
    by (simp add: wp update_conv')
  ultimately show ?thesis by blast
qed

lemma update_total:
  fixes d :: "real dict"
  assumes "distinct (map fst d)" and "(k, w) \<in> set d"
  shows "sum_list (map snd (AList.update k w' d)) = sum_list (map snd d) - w + w'"
  using assms
proof (induction d)
  case Nil
  then show ?case by simp
next
  case (Cons p d)
  show ?case
  proof (cases "fst p = k")
    case True
    with Cons.prems have "p = (k, w)"
      by (cases p) (auto simp: rev_image_eqI)
    then show ?thesis by simp
  next
    case False
    with Cons.prems have "(k, w) \<in> set d" "distinct (map fst d)" by auto
    from Cons.IH[OF this(2) this(1)] False show ?thesis by simp
  qed
qed

lemma perturb_valid_tree:
  assumes "distinct (map fst sub_dict)" and "(sub_cat, w) \<in> set sub_dict"
    and "sum_list (map snd sub_dict) = 1" and "0 \<le> w" and "w \<le> 1"
    and "f = 1 + 1 / 10 \<or> f = 1 - 1 / 10"
  shows "\<exists>wp d. perturb weights cat sub_dict sub_cat (w * f) = Inr wp \<and>
           map_of wp cat = Some d \<and> \<bar>sum_list (map snd d) - 1\<bar> \<le> 1 / 10 ^ 9"
proof -
  have "sum_list (map snd (AList.update sub_cat (w * f) sub_dict)) = 1 - w + w * f"
    using update_total[OF assms(1,2)] assms(3) by simp
  moreover have "1 - w + w * f \<noteq> 0"
  proof -
    from assms(6) show ?thesis
    proof
      assume "f = 1 + 1 / 10"
      then have "1 - w + w * f = 1 + w / 10" by (simp add: algebra_simps)
      with assms(4) show ?thesis by linarith
    next
      assume "f = 1 - 1 / 10"
      then have "1 - w + w * f = 1 - w / 10" by (simp add: algebra_simps)
      with assms(5) show ?thesis by linarith
    qed
  qed
  ultimately obtain wp where wp: "perturb weights cat sub_dict sub_cat (w * f) = Inr wp"
    using perturb_returns by metis
  from perturb_renormalised[OF wp] obtain d where
    "map_of wp cat = Some d" "sum_list (map snd d) = 1" by blast
  with wp show ?thesis by auto
qed

lemma fold_err_returns:
  assumes "\<And>x s. x \<in> set xs \<Longrightarrow> \<exists>s'. f x s = Inr s'"
  shows "\<exists>s'. fold_err f xs s = Inr s'"
  using assms
proof (induction xs arbitrary: s)
  case Nil
  then show ?case by simp
next
  case (Cons x xs)
  from Cons.prems[of x s] obtain s1 where s1: "f x s = Inr s1" by auto
  from Cons.IH[of s1] Cons.prems obtain s' where "fold_err f xs s1 = Inr s'" by auto
  with s1 show ?case by simp
qed

lemma fold_err_keys:
  assumes "\<And>x s s'. x \<in> set xs \<Longrightarrow> f x s = Inr s' \<Longrightarrow>
             fst ` set s' = fst ` set s \<union> K x"
    and "fold_err f xs s = Inr s'"
  shows "fst ` set s' = fst ` set s \<union> (\<Union>x \<in> set xs. K x)"
  using assms
proof (induction xs arbitrary: s)
  case Nil
  then show ?case by simp
next
  case (Cons x xs)
  from Cons.prems(2) obtain s1 where s1: "f x s = Inr s1" and r: "fold_err f xs s1 = Inr s'"
    by (auto split: sum.splits)
  have "fst ` set s1 = fst ` set s \<union> K x"
    using Cons.prems(1)[of x s s1] s1 by simp
  moreover have "fst ` set s' = fst ` set s1 \<union> (\<Union>x \<in> set xs. K x)"
    using Cons.IH[OF _ r] Cons.prems(1) by simp
  ultimately show ?case by auto
qed

lemma sens_leaf_returns:
  assumes "sum_list (map snd (AList.update sub_cat (w * (1 + delta)) sub_dict)) \<noteq> 0"
    and "sum_list (map snd (AList.update sub_cat (w * (1 - delta)) sub_dict)) \<noteq> 0"
  shows "\<exists>r. sens_leaf norm_data weights delta cat sub_dict sub_cat w results = Inr r"
proof -
  from perturb_returns[OF assms(1)] obtain wp where
    p: "perturb weights cat sub_dict sub_cat (w * (1 + delta)) = Inr wp" by blast
  from perturb_returns[OF assms(2)] obtain wm where
    m: "perturb weights cat sub_dict sub_cat (w * (1 - delta)) = Inr wm" by blast
  from topsis_None_returns obtain sp where sp: "topsis norm_data wp None = Inr sp" by blast
  from topsis_None_returns obtain sm where sm: "topsis norm_data wm None = Inr sm" by blast
  show ?thesis by (simp add: sens_leaf_def p m sp sm)
qed

lemma sens_leaf_keys:
  assumes "sens_leaf norm_data weights delta cat sub_dict sub_cat w results = Inr r"
  shows "fst ` set r = fst ` set results \<union>
           {cat @ ''_'' @ sub_cat @ ''_plus'', cat @ ''_'' @ sub_cat @ ''_minus''}"
proof -
  from assms obtain sp sm where
    r: "r = AList.update (cat @ ''_'' @ sub_cat @ ''_minus'') sm
           (AList.update (cat @ ''_'' @ sub_cat @ ''_plus'') sp results)"
    by (auto simp: sens_leaf_def split: sum.splits)
  have "fst ` set r = {cat @ ''_'' @ sub_cat @ ''_minus''} \<union>
          ({cat @ ''_'' @ sub_cat @ ''_plus''} \<union> fst ` set results)"
    by (simp only: r dom_update)
  then show ?thesis by blast
qed


text \<open>
  C8, as amended. \<open>sensitivity_analysis\<close> checks neither the range of \<open>delta\<close> nor
  the sign of a renormalisation total: for every \<open>delta\<close>, also \<open>delta \<ge> 1\<close>, whenever
  no total of a perturbed category is exactly zero, the call returns the baseline
  table and a perturbed table under the plus key and the minus key of every leaf.
\<close>

theorem sensitivity_without_range_check:
  assumes "\<forall>(cat, sub_dict) \<in> set weights. \<forall>(sub_cat, w) \<in> set sub_dict.
             sum_list (map snd (AList.update sub_cat (w * (1 + delta)) sub_dict)) \<noteq> 0 \<and>
             sum_list (map snd (AList.update sub_cat (w * (1 - delta)) sub_dict)) \<noteq> 0"
  shows "\<exists>base_scores results.
           sensitivity_analysis norm_data weights delta = Inr (base_scores, results) \<and>
           topsis norm_data weights None = Inr base_scores \<and>
           fst ` set results =
             (\<Union>(cat, sub_dict) \<in> set weights. \<Union>(sub_cat, w) \<in> set sub_dict.
                {cat @ ''_'' @ sub_cat @ ''_plus'', cat @ ''_'' @ sub_cat @ ''_minus''})"
proof -
  let ?leaf = "\<lambda>cat sub_dict. (\<lambda>(sub_cat, orig_weight) results'.
                  sens_leaf norm_data weights delta cat sub_dict sub_cat orig_weight results')"
  let ?inner = "\<lambda>(cat, sub_dict) results. fold_err (?leaf cat sub_dict) sub_dict results"
  let ?K = "\<lambda>cat. (\<lambda>(sub_cat, w). {cat @ ''_'' @ sub_cat @ ''_plus'', cat @ ''_'' @ sub_cat @ ''_minus''})"
  from topsis_None_returns obtain base where base: "topsis norm_data weights None = Inr base"
    by blast
  have inner_ok: "\<exists>s'. ?inner x s = Inr s'" if "x \<in> set weights" for x s
  proof -
    obtain cat sub_dict where x: "x = (cat, sub_dict)" by (cases x)
    have "\<exists>s'. ?leaf cat sub_dict y t = Inr s'" if "y \<in> set sub_dict" for y t
    proof -
      obtain sub_cat w where y: "y = (sub_cat, w)" by (cases y)
      from assms \<open>x \<in> set weights\<close> that have
        "sum_list (map snd (AList.update sub_cat (w * (1 + delta)) sub_dict)) \<noteq> 0"
        "sum_list (map snd (AList.update sub_cat (w * (1 - delta)) sub_dict)) \<noteq> 0"
        by (auto simp: x y)
      from sens_leaf_returns[OF this] show ?thesis by (simp add: y)
    qed
    from fold_err_returns[of sub_dict "?leaf cat sub_dict", OF this] show ?thesis
      by (simp add: x)
  qed
  from fold_err_returns[of weights ?inner, OF inner_ok] obtain results where
    res: "fold_err ?inner weights [] = Inr results" by blast
  have inner_keys: "fst ` set s' = fst ` set s \<union> (\<Union>y \<in> set (snd x). ?K (fst x) y)"
    if "?inner x s = Inr s'" for x s s'
  proof -
    obtain cat sub_dict where x: "x = (cat, sub_dict)" by (cases x)
    from that have r: "fold_err (?leaf cat sub_dict) sub_dict s = Inr s'" by (simp add: x)
    have "fst ` set t' = fst ` set t \<union> ?K cat y" if "?leaf cat sub_dict y t = Inr t'" for y t t'
    proof -
      obtain sub_cat w where y: "y = (sub_cat, w)" by (cases y)
      from that sens_leaf_keys show ?thesis by (simp add: y)
    qed
    from fold_err_keys[of sub_dict "?leaf cat sub_dict" "?K cat", OF this r] show ?thesis
      by (simp add: x)
  qed
  have "fst ` set results = fst ` set ([] :: score_frame dict) \<union>
          (\<Union>x \<in> set weights. \<Union>y \<in> set (snd x). ?K (fst x) y)"
    by (rule fold_err_keys[of weights ?inner _ "[]" results, OF inner_keys res])
  then have keys: "fst ` set results =
             (\<Union>(cat, sub_dict) \<in> set weights. \<Union>(sub_cat, w) \<in> set sub_dict.
                {cat @ ''_'' @ sub_cat @ ''_plus'', cat @ ''_'' @ sub_cat @ ''_minus''})"
    by (simp add: case_prod_unfold)
  have "sensitivity_analysis norm_data weights delta = Inr (base, results)"
    by (simp add: sensitivity_analysis_def base res)
  with base keys show ?thesis by blast
qed


lemma fold_err_invariant:
  assumes "P s" and "\<And>x t t'. x \<in> set xs \<Longrightarrow> P t \<Longrightarrow> f x t = Inr t' \<Longrightarrow> P t'"
    and "fold_err f xs s = Inr s'"
  shows "P s'"
  using assms
proof (induction xs arbitrary: s)
  case Nil
  then show ?case by simp
next
  case (Cons x xs)
  from Cons.prems(3) obtain s1 where s1: "f x s = Inr s1" and r: "fold_err f xs s1 = Inr s'"
    by (auto split: sum.splits)
  have "P s1" using Cons.prems(2)[of x s s1] Cons.prems(1) s1 by simp
  show ?case
  proof (rule Cons.IH[OF \<open>P s1\<close> _ r])
    fix y t t'
    assume "y \<in> set xs" "P t" "f y t = Inr t'"
    then show "P t'" using Cons.prems(2)[of y t t'] by simp
  qed
qed

lemma sensitivity_entry_count:
  assumes "sensitivity_analysis norm_data weights delta = Inr (base_scores, results)"
  shows "length results = card (fst ` set results)"
proof -
  let ?leaf = "\<lambda>cat sub_dict. (\<lambda>(sub_cat, orig_weight) results'.
                  sens_leaf norm_data weights delta cat sub_dict sub_cat orig_weight results')"
  let ?inner = "\<lambda>(cat, sub_dict) results. fold_err (?leaf cat sub_dict) sub_dict results"
  let ?P = "\<lambda>r :: score_frame dict. distinct (map fst r)"
  from assms have res: "fold_err ?inner weights [] = Inr results"
    by (auto simp: sensitivity_analysis_def split: sum.splits)
  have leaf: "?P t'" if "?P t" "?leaf cat sub_dict y t = Inr t'" for cat sub_dict y t t'
  proof -
    obtain sub_cat w where y: "y = (sub_cat, w)" by (cases y)
    from that(2) obtain sp sm where
      "t' = AList.update (cat @ ''_'' @ sub_cat @ ''_minus'') sm
           (AList.update (cat @ ''_'' @ sub_cat @ ''_plus'') sp t)"
      by (auto simp: y sens_leaf_def split: sum.splits)
    with that(1) show ?thesis by (simp add: distinct_update)
  qed
  have inner: "?P t'" if "?P t" "?inner x t = Inr t'" for x t t'
  proof -
    obtain cat sub_dict where x: "x = (cat, sub_dict)" by (cases x)
    from that(2) have r: "fold_err (?leaf cat sub_dict) sub_dict t = Inr t'" by (simp add: x)
    show ?thesis
      by (rule fold_err_invariant[of ?P t sub_dict "?leaf cat sub_dict", OF that(1) _ r])
        (rule leaf)
  qed
  have "?P results"
    by (rule fold_err_invariant[of ?P "[]" weights ?inner, OF _ _ res]) (simp, rule inner)
  then have "card (set (map fst results)) = length (map fst results)"
    by (rule distinct_card)
  then show ?thesis by simp
qed

text \<open>
  Against C8 as stated: with \<open>delta = 1\<close> and two leaves of weight 1/2 the call returns
  the four perturbed tables; with \<open>delta = 3\<close> the minus scenario of each leaf divides
  by the total -1/2 and the call returns as well.
\<close>

theorem sensitivity_accepts_delta_one:
  "\<not> isl (sensitivity_analysis
       [\<lparr>region = ''R1'', category = ''A'', sub_category = ''x'', val = 1, cost_benefit = ''Benefit''\<rparr>,
        \<lparr>region = ''R2'', category = ''A'', sub_category = ''x'', val = 0, cost_benefit = ''Benefit''\<rparr>]
       [(''A'', [(''x'', 1/2), (''y'', 1/2)])] 1)
   \<and> map fst (snd (projr (sensitivity_analysis
       [\<lparr>region = ''R1'', category = ''A'', sub_category = ''x'', val = 1, cost_benefit = ''Benefit''\<rparr>,
        \<lparr>region = ''R2'', category = ''A'', sub_category = ''x'', val = 0, cost_benefit = ''Benefit''\<rparr>]
       [(''A'', [(''x'', 1/2), (''y'', 1/2)])] 1)))
     = [''A_x_plus'', ''A_x_minus'', ''A_y_plus'', ''A_y_minus'']
   \<and> \<not> isl (sensitivity_analysis
       [\<lparr>region = ''R1'', category = ''A'', sub_category = ''x'', val = 1, cost_benefit = ''Benefit''\<rparr>,
        \<lparr>region = ''R2'', category = ''A'', sub_category = ''x'', val = 0, cost_benefit = ''Benefit''\<rparr>]
       [(''A'', [(''x'', 1/2), (''y'', 1/2)])] 3)"
  by (simp add: sensitivity_analysis_def sens_leaf_def perturb_def topsis_def weighted_rows_def)

theorem sensitivity_without_range_check_witness:
  "(1::real) \<le> 1 \<and>
   (\<exists>base_scores results.
      sensitivity_analysis
       [\<lparr>region = ''R1'', category = ''A'', sub_category = ''x'', val = 1, cost_benefit = ''Benefit''\<rparr>,
        \<lparr>region = ''R2'', category = ''A'', sub_category = ''x'', val = 0, cost_benefit = ''Benefit''\<rparr>]
       [(''A'', [(''x'', 1/2), (''y'', 1/2)])] 1 = Inr (base_scores, results) \<and>
      fst ` set results = {''A_x_plus'', ''A_x_minus'', ''A_y_plus'', ''A_y_minus''})"
proof -
  let ?w = "[(''A'', [(''x'', 1/2), (''y'', 1/2::real)])]"
  have h: "\<forall>(cat, sub_dict) \<in> set ?w. \<forall>(sub_cat, w) \<in> set sub_dict.
             sum_list (map snd (AList.update sub_cat (w * (1 + 1)) sub_dict)) \<noteq> 0 \<and>
             sum_list (map snd (AList.update sub_cat (w * (1 - 1)) sub_dict)) \<noteq> 0"
    by simp
  let ?d = "[\<lparr>region = ''R1'', category = ''A'', sub_category = ''x'', val = 1::real, cost_benefit = ''Benefit''\<rparr>,
        \<lparr>region = ''R2'', category = ''A'', sub_category = ''x'', val = 0, cost_benefit = ''Benefit''\<rparr>]"
  from sensitivity_without_range_check[of ?w 1 ?d, OF h] obtain b r where
    "sensitivity_analysis ?d ?w 1 = Inr (b, r)" and
    "fst ` set r = (\<Union>(cat, sub_dict) \<in> set ?w. \<Union>(sub_cat, w) \<in> set sub_dict.
                {cat @ ''_'' @ sub_cat @ ''_plus'', cat @ ''_'' @ sub_cat @ ''_minus''})"
    by blast
  moreover have "(\<Union>(cat, sub_dict) \<in> set ?w. \<Union>(sub_cat, w) \<in> set sub_dict.
                {cat @ ''_'' @ sub_cat @ ''_plus'', cat @ ''_'' @ sub_cat @ ''_minus''})
      = {''A_x_plus'', ''A_x_minus'', ''A_y_plus'', ''A_y_minus''}"
    by (simp add: insert_commute)
  ultimately show ?thesis by auto
qed

text \<open>
  C7. With the category \<open>A\<close> holding the leaf \<open>B_C\<close> and the category \<open>A_B\<close> holding
  the leaf \<open>C\<close>, the keys of the two leaves are the same strings: of the four
  perturbed tables only two are left in the result, not 2 * 2.
\<close>

theorem sensitivity_keys_collide:
  "\<not> isl (sensitivity_analysis
       [\<lparr>region = ''R1'', category = ''A'', sub_category = ''B_C'', val = 1, cost_benefit = ''Benefit''\<rparr>,
        \<lparr>region = ''R2'', category = ''A'', sub_category = ''B_C'', val = 0, cost_benefit = ''Benefit''\<rparr>]
       [(''A'', [(''B_C'', 1)]), (''A_B'', [(''C'', 1)])] (1/10))
   \<and> map fst (snd (projr (sensitivity_analysis
       [\<lparr>region = ''R1'', category = ''A'', sub_category = ''B_C'', val = 1, cost_benefit = ''Benefit''\<rparr>,
        \<lparr>region = ''R2'', category = ''A'', sub_category = ''B_C'', val = 0, cost_benefit = ''Benefit''\<rparr>]
       [(''A'', [(''B_C'', 1)]), (''A_B'', [(''C'', 1)])] (1/10))))
     = [''A_B_C_plus'', ''A_B_C_minus'']
   \<and> length (concat (map snd [(''A'', [(''B_C'', 1::real)]), (''A_B'', [(''C'', 1)])])) = 2"
  by (simp add: sensitivity_analysis_def sens_leaf_def perturb_def topsis_def weighted_rows_def)

section \<open>Facts about the normaliser\<close>


lemma list_all2_members:
  assumes "list_all2 R xs ys"
  shows "list_all2 (\<lambda>x y. R x y \<and> y \<in> set ys) xs ys"
  using assms by (auto simp: list_all2_conv_all_nth)















section \<open>Facts about the distances\<close>
















section \<open>Facts about the closeness and its rescaling\<close>























end
